theory Spec2Isabelle
  imports Complex_Main "HOL-Library.AList"
begin

section \<open>Data model\<close>

text \<open>
  The program works on a networkx \<open>MultiDiGraph\<close> whose node ids are strings
  (\<open>"<osm id>_<mode>"\<close>), whose nodes and edges carry attribute dictionaries, and whose
  numbers are Python floats. Floats are idealised as \<^typ>\<open>real\<close>; a dictionary key that
  may be absent is an \<open>option\<close> field. Exceptions are values of \<open>error\<close>.
\<close>

type_synonym node = string
type_synonym coord = "real \<times> real"

datatype error =
    ValueError string
  | KeyError string
  | IndexError
  | ZeroDivisionError
  | NetworkXNoPath
  | NodeNotFound

record node_attrs =
  attr_y :: "real option"
  attr_x :: "real option"

record edge_attrs =
  attr_mode :: "string option"
  attr_time :: "real option"
  attr_weight :: "real option"
  attr_length :: "real option"

text \<open>An edge is \<open>(u, v, key, data)\<close>; the list keeps insertion order.\<close>

type_synonym edge = "node \<times> node \<times> int \<times> edge_attrs"

record graph =
  g_nodes :: "(node \<times> node_attrs) list"
  g_edges :: "edge list"

definition empty_attrs :: edge_attrs where
  "empty_attrs = \<lparr>attr_mode = None, attr_time = None, attr_weight = None, attr_length = None\<rparr>"

text \<open>\<open>d.get(key, default)\<close> on an optional attribute.\<close>

definition dict_get :: "'a option \<Rightarrow> 'a \<Rightarrow> 'a" where
  "dict_get v dflt = (case v of Some a \<Rightarrow> a | None \<Rightarrow> dflt)"

subsection \<open>The networkx operations the program calls\<close>

text \<open>\<open>graph.nodes[u]\<close>: KeyError when \<open>u\<close> is not a node.\<close>

definition nx_node :: "graph \<Rightarrow> node \<Rightarrow> error + node_attrs" where
  "nx_node g u = (case map_of (g_nodes g) u of None \<Rightarrow> Inl (KeyError u) | Some d \<Rightarrow> Inr d)"

text \<open>
  \<open>graph.get_edge_data(u, v)\<close> on a multigraph: the dictionary key -> data of the
  parallel edges from \<open>u\<close> to \<open>v\<close> (in insertion order), or \<open>None\<close> when there is no
  such edge.
\<close>

definition nx_keydict :: "graph \<Rightarrow> node \<Rightarrow> node \<Rightarrow> (int \<times> edge_attrs) list" where
  "nx_keydict g u v = [(k, d). (a, b, k, d) \<leftarrow> g_edges g, a = u \<and> b = v]"

definition nx_get_edge_data :: "graph \<Rightarrow> node \<Rightarrow> node \<Rightarrow> (int \<times> edge_attrs) list option" where
  "nx_get_edge_data g u v =
     (let keydict = nx_keydict g u v
      in if keydict = [] then None else Some keydict)"

text \<open>
  \<open>new_edge_key\<close>: \<open>key = len(keydict); while key in keydict: key += 1\<close>.
\<close>

function new_edge_key_loop :: "int list \<Rightarrow> int \<Rightarrow> int" where
  "new_edge_key_loop keys key =
     (if key \<in> set keys then new_edge_key_loop keys (key + 1) else key)"
  by pat_completeness auto
termination
proof (relation "measure (\<lambda>(keys, key). card {k \<in> set keys. key \<le> k})")
  show "wf (measure (\<lambda>(keys, key). card {k \<in> set keys. key \<le> k}))"
    by simp
next
  fix keys :: "int list" and key :: int
  assume mem: "key \<in> set keys"
  have "{k \<in> set keys. key + 1 \<le> k} \<subseteq> {k \<in> set keys. key \<le> k}"
    by auto
  moreover have "key \<in> {k \<in> set keys. key \<le> k}" "key \<notin> {k \<in> set keys. key + 1 \<le> k}"
    using mem by simp_all
  ultimately have "{k \<in> set keys. key + 1 \<le> k} \<subset> {k \<in> set keys. key \<le> k}"
    by blast
  then have "card {k \<in> set keys. key + 1 \<le> k} < card {k \<in> set keys. key \<le> k}"
    by (intro psubset_card_mono) simp_all
  then show "((keys, key + 1), (keys, key)) \<in> measure (\<lambda>(keys, key). card {k \<in> set keys. key \<le> k})"
    by simp
qed

definition nx_new_edge_key :: "graph \<Rightarrow> node \<Rightarrow> node \<Rightarrow> int" where
  "nx_new_edge_key g u v =
     (case nx_get_edge_data g u v of
        None \<Rightarrow> 0
      | Some keydict \<Rightarrow> new_edge_key_loop (map fst keydict) (int (length keydict)))"

definition nx_ensure_node :: "node \<Rightarrow> (node \<times> node_attrs) list \<Rightarrow> (node \<times> node_attrs) list" where
  "nx_ensure_node u ns =
     (if u \<in> fst ` set ns then ns else ns @ [(u, \<lparr>attr_y = None, attr_x = None\<rparr>)])"

text \<open>
  \<open>graph.add_edge(u, v, **attr)\<close> with no key: both endpoints become nodes if they
  are not yet, and a new parallel edge is stored under a fresh key.
\<close>

definition nx_add_edge :: "graph \<Rightarrow> node \<Rightarrow> node \<Rightarrow> edge_attrs \<Rightarrow> graph" where
  "nx_add_edge g u v attr =
     g\<lparr>g_nodes := nx_ensure_node v (nx_ensure_node u (g_nodes g)),
       g_edges := g_edges g @ [(u, v, nx_new_edge_key g u v, attr)]\<rparr>"

section \<open>ModeLayerBuilder: \<open>_add_mode_attributes\<close>\<close>

text \<open>
  For every edge: \<open>mode\<close> is set; \<open>time\<close> is \<open>length / 1000 / speed_kmh * 60\<close> when the
  edge has a length and 1.0 otherwise; \<open>weight\<close> is the time. Dividing by a zero speed
  raises.
\<close>

definition travel_time :: "real \<Rightarrow> edge_attrs \<Rightarrow> error + real" where
  "travel_time speed_kmh data =
     (case attr_length data of
        Some len \<Rightarrow>
          (let distance_km = len / 1000
           in if speed_kmh = 0 then Inl ZeroDivisionError
              else (let time_hours = distance_km / speed_kmh;
                        time_minutes = time_hours * 60
                    in Inr time_minutes))
      | None \<Rightarrow> Inr 1)"

fun add_mode_attributes_loop :: "string \<Rightarrow> real \<Rightarrow> edge list \<Rightarrow> error + edge list" where
  "add_mode_attributes_loop mode speed_kmh [] = Inr []"
| "add_mode_attributes_loop mode speed_kmh ((u, v, key, data) # es) =
     (case travel_time speed_kmh data of
        Inl e \<Rightarrow> Inl e
      | Inr t \<Rightarrow>
          (case add_mode_attributes_loop mode speed_kmh es of
             Inl e \<Rightarrow> Inl e
           | Inr es' \<Rightarrow>
               Inr ((u, v, key,
                     data\<lparr>attr_mode := Some mode, attr_time := Some t, attr_weight := Some t\<rparr>)
                    # es')))"

definition add_mode_attributes :: "graph \<Rightarrow> string \<Rightarrow> real \<Rightarrow> error + graph" where
  "add_mode_attributes g mode speed_kmh =
     (case add_mode_attributes_loop mode speed_kmh (g_edges g) of
        Inl e \<Rightarrow> Inl e
      | Inr es \<Rightarrow> Inr (g\<lparr>g_edges := es\<rparr>))"

text \<open>The attributes an edge carries after the layer has been built with speed \<open>s\<close>.\<close>

definition built_attrs :: "string \<Rightarrow> real \<Rightarrow> edge_attrs \<Rightarrow> edge_attrs" where
  "built_attrs m s data =
     (let t = (case attr_length data of Some len \<Rightarrow> len / 1000 / s * 60 | None \<Rightarrow> 1)
      in data\<lparr>attr_mode := Some m, attr_time := Some t, attr_weight := Some t\<rparr>)"

definition edge_data :: "edge \<Rightarrow> edge_attrs" where
  "edge_data e = snd (snd (snd e))"

section \<open>Cost model: \<open>calc_cost\<close>\<close>

definition calc_cost :: "string \<Rightarrow> real \<Rightarrow> int" where
  "calc_cost mode time_minutes =
     (if mode = ''car'' then 20
      else if mode = ''bike'' then 0
      else if mode = ''walk'' then 0
      else if mode = ''transfer'' then 0
      else 0)"

section \<open>SegmentAssembler: \<open>_get_edge_data\<close> and \<open>_path_to_segments\<close>\<close>

text \<open>
  \<open>_get_edge_data\<close>: the data stored under key 0 when the dictionary of parallel edges
  has that key, else the first value of the dictionary; the empty dictionary when
  there is no edge. Indexing the first value of an empty dictionary would raise.
\<close>

definition get_edge_data :: "graph \<Rightarrow> node \<Rightarrow> node \<Rightarrow> error + edge_attrs" where
  "get_edge_data g u v =
     (case nx_get_edge_data g u v of
        Some keydict \<Rightarrow>
          (case map_of keydict 0 of
             Some d \<Rightarrow> Inr d
           | None \<Rightarrow> (case keydict of [] \<Rightarrow> Inl IndexError | (k, d) # _ \<Rightarrow> Inr d))
      | None \<Rightarrow> Inr empty_attrs)"

text \<open>\<open>[node_data['y'], node_data['x']]\<close>: KeyError when a coordinate is missing.\<close>

definition node_coord :: "node_attrs \<Rightarrow> error + coord" where
  "node_coord node_data =
     (case attr_y node_data of
        None \<Rightarrow> Inl (KeyError ''y'')
      | Some lat \<Rightarrow>
          (case attr_x node_data of
             None \<Rightarrow> Inl (KeyError ''x'')
           | Some lon \<Rightarrow> Inr (lat, lon)))"

definition graph_coord :: "graph \<Rightarrow> node \<Rightarrow> error + coord" where
  "graph_coord g u = (case nx_node g u of Inl e \<Rightarrow> Inl e | Inr node_data \<Rightarrow> node_coord node_data)"

text \<open>
  Python's \<open>round(x, ndigits)\<close>: on a float, to the nearest multiple of
  \<open>10 ^ -ndigits\<close> with ties to even; on an int (and \<open>ndigits \<ge> 0\<close>), the int itself.
\<close>

definition round_half_even :: "real \<Rightarrow> int" where
  "round_half_even x =
     (let f = \<lfloor>x\<rfloor>; r = x - of_int f
      in if r < 1 / 2 then f else if 1 / 2 < r then f + 1 else if even f then f else f + 1)"

definition py_round :: "real \<Rightarrow> nat \<Rightarrow> real" where
  "py_round x ndigits = of_int (round_half_even (x * 10 ^ ndigits)) / 10 ^ ndigits"

definition py_round_int :: "int \<Rightarrow> nat \<Rightarrow> int" where
  "py_round_int n ndigits = n"

record segment =
  seg_mode :: string
  seg_coords :: "coord list"
  seg_time :: real
  seg_cost :: int

text \<open>The local variables of the loop of \<open>_path_to_segments\<close>.\<close>

record seg_state =
  segments :: "segment list"
  current_mode :: "string option"
  current_coords :: "coord list"
  current_time :: real
  current_cost :: int

definition init_state :: seg_state where
  "init_state =
     \<lparr>segments = [], current_mode = None, current_coords = [], current_time = 0, current_cost = 0\<rparr>"

definition close_segment :: "string \<Rightarrow> seg_state \<Rightarrow> segment" where
  "close_segment cm st =
     \<lparr>seg_mode = cm, seg_coords = current_coords st,
      seg_time = py_round (current_time st) 1, seg_cost = py_round_int (current_cost st) 0\<rparr>"

text \<open>\<open>if coord not in current_coords: current_coords.append(coord)\<close>\<close>

definition append_if_absent :: "coord \<Rightarrow> coord list \<Rightarrow> coord list" where
  "append_if_absent c cs = (if c \<in> set cs then cs else cs @ [c])"

text \<open>
  One iteration of the loop, for the path edge \<open>(u, v)\<close>. When no segment is open yet
  (\<open>current_mode is None\<close>) one is opened on the edge's mode; when the edge's mode
  differs from the open segment's, that segment is saved (if it has coordinates) and a
  new one is opened. Then the coordinate, the time and the cost are accrued.
\<close>

definition segment_step :: "graph \<Rightarrow> seg_state \<Rightarrow> node \<times> node \<Rightarrow> error + seg_state" where
  "segment_step g st uv =
     (case uv of (u, v) \<Rightarrow>
       (case get_edge_data g u v of
          Inl e \<Rightarrow> Inl e
        | Inr data \<Rightarrow>
            (let mode = dict_get (attr_mode data) ''walk'';
                 time = dict_get (attr_time data) 1
             in case graph_coord g u of
                  Inl e \<Rightarrow> Inl e
                | Inr c \<Rightarrow>
                    (let st1 =
                       (case current_mode st of
                          None \<Rightarrow> st\<lparr>current_mode := Some mode, current_coords := [c]\<rparr>
                        | Some cm \<Rightarrow>
                            if mode \<noteq> cm then
                              st\<lparr>segments :=
                                    (if current_coords st \<noteq> []
                                     then segments st @ [close_segment cm st]
                                     else segments st),
                                 current_mode := Some mode,
                                 current_coords := [c],
                                 current_time := 0,
                                 current_cost := 0\<rparr>
                            else st)
                     in Inr (st1\<lparr>current_coords := append_if_absent c (current_coords st1),
                                  current_time := current_time st1 + time,
                                  current_cost := current_cost st1 + calc_cost mode time\<rparr>)))))"

fun segment_loop :: "graph \<Rightarrow> seg_state \<Rightarrow> (node \<times> node) list \<Rightarrow> error + seg_state" where
  "segment_loop g st [] = Inr st"
| "segment_loop g st (uv # uvs) =
     (case segment_step g st uv of
        Inl e \<Rightarrow> Inl e
      | Inr st' \<Rightarrow> segment_loop g st' uvs)"

text \<open>The pairs \<open>(path[i], path[i + 1])\<close> for \<open>i\<close> in \<open>range(len(path) - 1)\<close>.\<close>

definition path_edges :: "node list \<Rightarrow> (node \<times> node) list" where
  "path_edges path = zip path (tl path)"

definition path_to_segments :: "graph \<Rightarrow> node list \<Rightarrow> error + segment list" where
  "path_to_segments g path =
     (if length path < 2 then Inr []
      else
        (case segment_loop g init_state (path_edges path) of
           Inl e \<Rightarrow> Inl e
         | Inr st \<Rightarrow>
             (case graph_coord g (last path) of
                Inl e \<Rightarrow> Inl e
              | Inr final_coord \<Rightarrow>
                  (let st' = st\<lparr>current_coords := append_if_absent final_coord (current_coords st)\<rparr>
                   in case current_mode st' of
                        Some cm \<Rightarrow>
                          if current_coords st' \<noteq> []
                          then Inr (segments st' @ [close_segment cm st'])
                          else Inr (segments st')
                      | None \<Rightarrow> Inr (segments st')))))"

section \<open>NearestNodeLocator: \<open>nearest_node\<close>\<close>

text \<open>
  The geodesic distance in meters (geopy) is a parameter. \<open>min_dist\<close> starts at
  infinity, here \<open>None\<close>; a node without both coordinates is skipped; a strictly
  smaller distance replaces the current nearest node.
\<close>

type_synonym geodesic = "coord \<Rightarrow> coord \<Rightarrow> real"

fun nearest_node_loop ::
  "geodesic \<Rightarrow> coord \<Rightarrow> (node \<times> node_attrs) list \<Rightarrow> real option \<Rightarrow> node option \<Rightarrow> node option" where
  "nearest_node_loop geo q [] min_dist nearest = nearest"
| "nearest_node_loop geo q ((n, data) # rest) min_dist nearest =
     (case (attr_y data, attr_x data) of
        (Some node_lat, Some node_lon) \<Rightarrow>
          (let d = geo q (node_lat, node_lon)
           in if (case min_dist of None \<Rightarrow> True | Some m \<Rightarrow> d < m)
              then nearest_node_loop geo q rest (Some d) (Some n)
              else nearest_node_loop geo q rest min_dist nearest)
      | _ \<Rightarrow> nearest_node_loop geo q rest min_dist nearest)"

definition nearest_node :: "geodesic \<Rightarrow> graph \<Rightarrow> real \<Rightarrow> real \<Rightarrow> node option" where
  "nearest_node geo g lat lon = nearest_node_loop geo (lat, lon) (g_nodes g) None None"

section \<open>RoutePlanner: \<open>get_multimodal_route\<close>\<close>

text \<open>
  \<open>nx.shortest_path(graph, start, end, weight='time')\<close> is a parameter: it returns a
  node path or raises. \<open>NetworkXNoPath\<close> is caught and raised again as a ValueError;
  every other error passes through.
\<close>

type_synonym shortest_path = "graph \<Rightarrow> node \<Rightarrow> node \<Rightarrow> error + node list"

record route =
  total_time :: real
  total_cost :: int
  route_segments :: "segment list"

definition get_multimodal_route ::
  "shortest_path \<Rightarrow> geodesic \<Rightarrow> graph \<Rightarrow> real \<Rightarrow> real \<Rightarrow> real \<Rightarrow> real \<Rightarrow> error + route" where
  "get_multimodal_route sp geo g start_lat start_lon end_lat end_lon =
     (case (nearest_node geo g start_lat start_lon, nearest_node geo g end_lat end_lon) of
        (Some start_node, Some end_node) \<Rightarrow>
          (case sp g start_node end_node of
             Inl NetworkXNoPath \<Rightarrow> Inl (ValueError ''No path found between the specified points'')
           | Inl e \<Rightarrow> Inl e
           | Inr path \<Rightarrow>
               (case path_to_segments g path of
                  Inl e \<Rightarrow> Inl e
                | Inr segs \<Rightarrow>
                    (let t = sum_list (map seg_time segs);
                         c = sum_list (map seg_cost segs)
                     in Inr \<lparr>total_time = py_round t 1,
                             total_cost = py_round_int c 0,
                             route_segments = segs\<rparr>)))
      | _ \<Rightarrow> Inl (ValueError ''Could not find valid nodes near the specified coordinates''))"

section \<open>InterlayerLinker: \<open>_add_interlayer_edges\<close>\<close>

text \<open>\<open>node.split('_')[0]\<close>: the part of the node id before its first underscore.\<close>

definition original_id :: "node \<Rightarrow> string" where
  "original_id n = takeWhile (\<lambda>c. c \<noteq> CHR ''_'') n"

text \<open>
  \<open>node_positions\<close> is a dictionary, filled from the nodes of the walk, bike and car
  graphs that have both a \<open>y\<close> and an \<open>x\<close>; it is kept as an association list in
  insertion order, which is the order the two loops below visit it in.
\<close>

definition record_position :: "(node \<times> coord) list \<Rightarrow> node \<times> node_attrs \<Rightarrow> (node \<times> coord) list" where
  "record_position node_positions nd =
     (case nd of (node_id, node_data) \<Rightarrow>
        (case (attr_y node_data, attr_x node_data) of
           (Some lat, Some lon) \<Rightarrow> AList.update node_id (lat, lon) node_positions
         | _ \<Rightarrow> node_positions))"

definition node_positions :: "graph \<Rightarrow> graph \<Rightarrow> graph \<Rightarrow> (node \<times> coord) list" where
  "node_positions walk_graph bike_graph car_graph =
     foldl (\<lambda>np mode_graph. foldl record_position np (g_nodes mode_graph))
       [] [walk_graph, bike_graph, car_graph]"

definition max_transfer_distance :: real where
  "max_transfer_distance = 10"

text \<open>
  The body of the two nested loops, for one ordered pair of entries of
  \<open>node_positions\<close>: nothing for a node and itself; one edge \<open>node1 -> node2\<close> when the
  original ids agree; otherwise both directions when the geodesic distance is at most
  \<open>max_transfer_distance\<close>. The counter \<open>transfer_edges_added\<close> is only logged and is
  left out.
\<close>

definition link_nodes :: "geodesic \<Rightarrow> graph \<Rightarrow> node \<times> coord \<Rightarrow> node \<times> coord \<Rightarrow> graph" where
  "link_nodes geo merged_graph np1 np2 =
     (case (np1, np2) of ((node1, pos1), (node2, pos2)) \<Rightarrow>
        if node1 = node2 then merged_graph
        else if original_id node1 = original_id node2 then
          nx_add_edge merged_graph node1 node2
            \<lparr>attr_mode = Some ''transfer'', attr_time = Some (1 / 2),
             attr_weight = Some (1 / 2), attr_length = Some 0\<rparr>
        else
          (let distance = geo pos1 pos2
           in if distance \<le> max_transfer_distance then
                (let transfer_time = 2;
                     g1 = nx_add_edge merged_graph node1 node2
                            \<lparr>attr_mode = Some ''transfer'', attr_time = Some transfer_time,
                             attr_weight = Some transfer_time, attr_length = Some distance\<rparr>
                 in nx_add_edge g1 node2 node1
                      \<lparr>attr_mode = Some ''transfer'', attr_time = Some transfer_time,
                       attr_weight = Some transfer_time, attr_length = Some distance\<rparr>)
              else merged_graph))"

definition add_interlayer_edges ::
  "geodesic \<Rightarrow> graph \<Rightarrow> graph \<Rightarrow> graph \<Rightarrow> graph \<Rightarrow> graph" where
  "add_interlayer_edges geo merged_graph walk_graph bike_graph car_graph =
     (let np = node_positions walk_graph bike_graph car_graph
      in foldl (\<lambda>g np1. foldl (\<lambda>g' np2. link_nodes geo g' np1 np2) g np) merged_graph np)"

section \<open>Notions used in the statements\<close>

text \<open>The mode \<open>_path_to_segments\<close> reads off the path edge \<open>uv\<close>.\<close>

definition resolved_mode :: "graph \<Rightarrow> node \<times> node \<Rightarrow> string" where
  "resolved_mode g uv =
     (case get_edge_data g (fst uv) (snd uv) of
        Inr d \<Rightarrow> dict_get (attr_mode d) ''walk''
      | Inl e \<Rightarrow> ''walk'')"

text \<open>The cost accrued so far by the loop: the saved segments and the open one.\<close>

definition accrued_cost :: "seg_state \<Rightarrow> int" where
  "accrued_cost st = sum_list (map seg_cost (segments st)) + current_cost st"

definition segment_open :: "seg_state \<Rightarrow> bool" where
  "segment_open st = (current_mode st \<noteq> None \<and> current_coords st \<noteq> [])"

text \<open>The first occurrence of every element, in order.\<close>

definition dedup_first :: "'a list \<Rightarrow> 'a list" where
  "dedup_first xs = rev (remdups (rev xs))"

text \<open>
  The runs of a path: maximal blocks of consecutive path edges of one mode, each with
  the items (coordinates of the source nodes) of its edges; \<open>final\<close>, the item of the
  destination, goes to the last block.
\<close>

fun split_runs :: "'a \<Rightarrow> string \<Rightarrow> 'a list \<Rightarrow> (string \<times> 'a) list \<Rightarrow> (string \<times> 'a list) list" where
  "split_runs final cm acc [] = [(cm, acc @ [final])]"
| "split_runs final cm acc ((m, x) # rest) =
     (if m = cm then split_runs final cm (acc @ [x]) rest
      else (cm, acc) # split_runs final m [x] rest)"

definition path_runs :: "string list \<Rightarrow> 'a list \<Rightarrow> (string \<times> 'a list) list" where
  "path_runs modes cs =
     (case zip modes cs of
        [] \<Rightarrow> []
      | (m, c) # rest \<Rightarrow> split_runs (last cs) m [c] rest)"

text \<open>The modes and coordinate lists of the segments a loop state leads to.\<close>

definition finish :: "seg_state \<Rightarrow> coord \<Rightarrow> (string \<times> coord list) list" where
  "finish st final =
     map (\<lambda>s. (seg_mode s, seg_coords s)) (segments st)
     @ (case current_mode st of
          Some cm \<Rightarrow> [(cm, append_if_absent final (current_coords st))]
        | None \<Rightarrow> [])"

text \<open>
  The policy the specification asks of \<open>_get_edge_data\<close>, for comparison: among the
  parallel edges, the data of lowest weight (networkx reads a missing weight as 1).
\<close>

definition lowest_weight_data :: "(int \<times> edge_attrs) list \<Rightarrow> edge_attrs" where
  "lowest_weight_data keydict = snd (arg_min_list (\<lambda>(k, d). dict_get (attr_weight d) 1) keydict)"

text \<open>Directed reachability along the edges of the graph.\<close>

definition edge_rel :: "graph \<Rightarrow> (node \<times> node) set" where
  "edge_rel g = (\<lambda>(u, v, k, d). (u, v)) ` set (g_edges g)"

definition has_path :: "graph \<Rightarrow> node \<Rightarrow> node \<Rightarrow> bool" where
  "has_path g s t = ((s, t) \<in> (edge_rel g)\<^sup>*)"

text \<open>
  What is assumed of \<open>nx.shortest_path\<close> on a graph: it raises \<open>NetworkXNoPath\<close> when
  the target cannot be reached from the source.
\<close>

definition raises_no_path :: "shortest_path \<Rightarrow> graph \<Rightarrow> bool" where
  "raises_no_path sp g =
     (\<forall>s t. s \<in> fst ` set (g_nodes g) \<and> t \<in> fst ` set (g_nodes g) \<and> \<not> has_path g s t
        \<longrightarrow> sp g s t = Inl NetworkXNoPath)"

text \<open>The transfer edges from \<open>a\<close> to \<open>b\<close>, in insertion order.\<close>

definition transfer_edges :: "graph \<Rightarrow> node \<Rightarrow> node \<Rightarrow> edge_attrs list" where
  "transfer_edges g a b =
     [d. (u, v, k, d) \<leftarrow> g_edges g, u = a \<and> v = b \<and> attr_mode d = Some ''transfer'']"

definition colocated_attrs :: edge_attrs where
  "colocated_attrs =
     \<lparr>attr_mode = Some ''transfer'', attr_time = Some (1 / 2),
      attr_weight = Some (1 / 2), attr_length = Some 0\<rparr>"

definition proximate_attrs :: "real \<Rightarrow> edge_attrs" where
  "proximate_attrs distance =
     \<lparr>attr_mode = Some ''transfer'', attr_time = Some 2,
      attr_weight = Some 2, attr_length = Some distance\<rparr>"

text \<open>The transfer edges from \<open>a\<close> to \<open>b\<close> that one visit of the pair \<open>(np1, np2)\<close> adds.\<close>

definition link_transfers :: "geodesic \<Rightarrow> node \<Rightarrow> node \<Rightarrow> node \<times> coord \<Rightarrow> node \<times> coord \<Rightarrow> edge_attrs list" where
  "link_transfers geo a b np1 np2 =
     (case (np1, np2) of ((node1, pos1), (node2, pos2)) \<Rightarrow>
        if node1 = node2 then []
        else if original_id node1 = original_id node2 then
          (if node1 = a \<and> node2 = b then [colocated_attrs] else [])
        else if geo pos1 pos2 \<le> max_transfer_distance then
          (if node1 = a \<and> node2 = b then [proximate_attrs (geo pos1 pos2)] else [])
          @ (if node2 = a \<and> node1 = b then [proximate_attrs (geo pos1 pos2)] else [])
        else [])"

section \<open>Example inputs\<close>

definition g_layer_example :: graph where
  "g_layer_example =
     \<lparr>g_nodes = [(''A_walk'', \<lparr>attr_y = None, attr_x = None\<rparr>),
                (''B_walk'', \<lparr>attr_y = None, attr_x = None\<rparr>)],
      g_edges = [(''A_walk'', ''B_walk'', 0, empty_attrs\<lparr>attr_length := Some 500\<rparr>),
                (''B_walk'', ''A_walk'', 0, empty_attrs)]\<rparr>"

text \<open>Two parallel edges from \<open>a\<close> to \<open>b\<close>; the one under key 0 is the heavier.\<close>

definition g_parallel :: graph where
  "g_parallel =
     \<lparr>g_nodes = [(''a'', \<lparr>attr_y = Some 0, attr_x = Some 0\<rparr>),
                (''b'', \<lparr>attr_y = Some 0, attr_x = Some 1\<rparr>)],
      g_edges = [(''a'', ''b'', 0, \<lparr>attr_mode = Some ''car'', attr_time = Some 5,
                                  attr_weight = Some 5, attr_length = None\<rparr>),
                (''a'', ''b'', 1, \<lparr>attr_mode = Some ''walk'', attr_time = Some 1,
                                  attr_weight = Some 1, attr_length = None\<rparr>)]\<rparr>"

text \<open>
  The scenario of the specification: a walk edge, a co-located transfer and a car edge.
\<close>

definition g_example :: graph where
  "g_example =
     \<lparr>g_nodes = [(''A_walk'', \<lparr>attr_y = Some 0, attr_x = Some 0\<rparr>),
                (''B_walk'', \<lparr>attr_y = Some 0, attr_x = Some 1\<rparr>),
                (''B_car'', \<lparr>attr_y = Some 0, attr_x = Some 1\<rparr>),
                (''C_car'', \<lparr>attr_y = Some 0, attr_x = Some 2\<rparr>)],
      g_edges = [(''A_walk'', ''B_walk'', 0, \<lparr>attr_mode = Some ''walk'', attr_time = Some 6,
                                             attr_weight = Some 6, attr_length = Some 500\<rparr>),
                (''B_walk'', ''B_car'', 0, \<lparr>attr_mode = Some ''transfer'', attr_time = Some (1 / 2),
                                            attr_weight = Some (1 / 2), attr_length = Some 0\<rparr>),
                (''B_car'', ''C_car'', 0, \<lparr>attr_mode = Some ''car'', attr_time = Some 3,
                                           attr_weight = Some 3, attr_length = Some 2000\<rparr>)]\<rparr>"

definition example_path :: "node list" where
  "example_path = [''A_walk'', ''B_walk'', ''B_car'', ''C_car'']"

definition example_segments :: "segment list" where
  "example_segments =
     [\<lparr>seg_mode = ''walk'', seg_coords = [(0, 0)], seg_time = 6, seg_cost = 0\<rparr>,
      \<lparr>seg_mode = ''transfer'', seg_coords = [(0, 1)], seg_time = 1 / 2, seg_cost = 0\<rparr>,
      \<lparr>seg_mode = ''car'', seg_coords = [(0, 1), (0, 2)], seg_time = 3, seg_cost = 20\<rparr>]"

text \<open>A walk path of four nodes; \<open>a\<close> and \<open>c\<close> have the same coordinates.\<close>

definition g_revisit :: graph where
  "g_revisit =
     \<lparr>g_nodes = [(''a'', \<lparr>attr_y = Some 0, attr_x = Some 0\<rparr>),
                (''b'', \<lparr>attr_y = Some 0, attr_x = Some 1\<rparr>),
                (''c'', \<lparr>attr_y = Some 0, attr_x = Some 0\<rparr>),
                (''d'', \<lparr>attr_y = Some 1, attr_x = Some 1\<rparr>)],
      g_edges = [(''a'', ''b'', 0, \<lparr>attr_mode = Some ''walk'', attr_time = Some 1,
                                  attr_weight = Some 1, attr_length = None\<rparr>),
                (''b'', ''c'', 0, \<lparr>attr_mode = Some ''walk'', attr_time = Some 1,
                                  attr_weight = Some 1, attr_length = None\<rparr>),
                (''c'', ''d'', 0, \<lparr>attr_mode = Some ''walk'', attr_time = Some 1,
                                  attr_weight = Some 1, attr_length = None\<rparr>)]\<rparr>"


text \<open>
  Stand-ins for the two library parameters in the examples: a distance in meters on a
  flat grid, and a path oracle that knows the example route.
\<close>

definition grid_distance :: geodesic where
  "grid_distance p q = 111000 * (\<bar>fst p - fst q\<bar> + \<bar>snd p - snd q\<bar>)"

definition example_shortest_path :: shortest_path where
  "example_shortest_path g s t =
     (if s = t then Inr [s]
      else if s = ''A_walk'' \<and> t = ''C_car'' then Inr example_path
      else Inl NetworkXNoPath)"

text \<open>Single-node layers and their unions, for the interlayer linker.\<close>

definition g_empty :: graph where
  "g_empty = \<lparr>g_nodes = [], g_edges = []\<rparr>"

definition g_walk_1 :: graph where
  "g_walk_1 = \<lparr>g_nodes = [(''1_walk'', \<lparr>attr_y = Some 0, attr_x = Some 0\<rparr>)], g_edges = []\<rparr>"

definition g_bike_1 :: graph where
  "g_bike_1 = \<lparr>g_nodes = [(''1_bike'', \<lparr>attr_y = Some 0, attr_x = Some 0\<rparr>)], g_edges = []\<rparr>"

definition g_bike_2 :: graph where
  "g_bike_2 = \<lparr>g_nodes = [(''2_bike'', \<lparr>attr_y = Some 0, attr_x = Some (1 / 100000)\<rparr>)], g_edges = []\<rparr>"

definition g_walk_12 :: graph where
  "g_walk_12 =
     \<lparr>g_nodes = [(''1_walk'', \<lparr>attr_y = Some 0, attr_x = Some 0\<rparr>),
                (''2_walk'', \<lparr>attr_y = Some 0, attr_x = Some (1 / 100000)\<rparr>)],
      g_edges = []\<rparr>"

text \<open>\<open>nx.compose_all\<close> of layers that have no edges: the union of their nodes.\<close>

definition g_merged_1 :: graph where
  "g_merged_1 = \<lparr>g_nodes = g_nodes g_walk_1 @ g_nodes g_bike_1, g_edges = []\<rparr>"

definition g_merged_2 :: graph where
  "g_merged_2 = \<lparr>g_nodes = g_nodes g_walk_1 @ g_nodes g_bike_2, g_edges = []\<rparr>"

section \<open>Evaluation rules\<close>

declare new_edge_key_loop.simps [simp del]

lemmas eval_defs =
  path_to_segments_def path_edges_def segment_step_def get_edge_data_def nx_get_edge_data_def nx_keydict_def
  graph_coord_def nx_node_def node_coord_def dict_get_def init_state_def close_segment_def
  append_if_absent_def calc_cost_def py_round_def round_half_even_def py_round_int_def Let_def

lemmas link_defs =
  add_interlayer_edges_def node_positions_def record_position_def link_nodes_def
  nx_add_edge_def nx_new_edge_key_def nx_get_edge_data_def nx_keydict_def nx_ensure_node_def
  new_edge_key_loop.simps original_id_def max_transfer_distance_def grid_distance_def Let_def

section \<open>ModeLayerBuilder: time and weight of built edges\<close>

lemma add_mode_attributes_loop_ok:
  "s \<noteq> 0 \<Longrightarrow>
   add_mode_attributes_loop m s es =
     Inr (map (\<lambda>(u, v, k, d). (u, v, k, built_attrs m s d)) es)"
proof (induction es)
  case Nil
  show ?case by simp
next
  case (Cons e es)
  obtain u v k d where e: "e = (u, v, k, d)"
    by (cases e) auto
  have "travel_time s d =
          Inr (case attr_length d of Some len \<Rightarrow> len / 1000 / s * 60 | None \<Rightarrow> 1)"
    using Cons.prems by (simp add: travel_time_def split: option.splits)
  then show ?case
    using Cons e by (simp add: built_attrs_def Let_def)
qed

text \<open>
  C4. After \<open>_add_mode_attributes\<close> has processed a layer with mode \<open>m\<close> and a non-zero
  speed \<open>s\<close>, the layer has the same edges in the same order, each carrying mode \<open>m\<close>,
  time \<open>length / 1000 / s * 60\<close> when it has a length and 1 otherwise, and weight equal
  to time; when moreover the speed is positive and no length is negative, every edge
  has weight = time \<ge> 0.
\<close>

theorem add_mode_attributes_sets_mode_time_weight:
  assumes "s \<noteq> 0"
  shows "\<exists>g'. add_mode_attributes g m s = Inr g'
           \<and> g_nodes g' = g_nodes g
           \<and> g_edges g' = map (\<lambda>(u, v, k, d). (u, v, k, built_attrs m s d)) (g_edges g)
           \<and> (\<forall>e \<in> set (g_edges g').
                 attr_mode (edge_data e) = Some m
               \<and> attr_weight (edge_data e) = attr_time (edge_data e))
           \<and> (0 < s \<and> (\<forall>e \<in> set (g_edges g). \<forall>len. attr_length (edge_data e) = Some len \<longrightarrow> 0 \<le> len)
                \<longrightarrow> (\<forall>e \<in> set (g_edges g').
                       \<exists>t. attr_time (edge_data e) = Some t
                         \<and> attr_weight (edge_data e) = Some t \<and> 0 \<le> t))"
proof -
  let ?es = "map (\<lambda>(u, v, k, d). (u, v, k, built_attrs m s d)) (g_edges g)"
  let ?g' = "g\<lparr>g_edges := ?es\<rparr>"
  have run: "add_mode_attributes g m s = Inr ?g'"
    using assms by (simp add: add_mode_attributes_def add_mode_attributes_loop_ok)
  have tagged: "\<forall>e \<in> set ?es. attr_mode (edge_data e) = Some m
                  \<and> attr_weight (edge_data e) = attr_time (edge_data e)"
    by (auto simp: edge_data_def built_attrs_def Let_def)
  have nonneg: "\<forall>e \<in> set ?es. \<exists>t. attr_time (edge_data e) = Some t
                  \<and> attr_weight (edge_data e) = Some t \<and> 0 \<le> t"
    if pos: "0 < s"
      and lens: "\<forall>e \<in> set (g_edges g). \<forall>len. attr_length (edge_data e) = Some len \<longrightarrow> 0 \<le> len"
  proof
    fix e assume "e \<in> set ?es"
    then obtain u v k d where src: "(u, v, k, d) \<in> set (g_edges g)"
      and e: "e = (u, v, k, built_attrs m s d)"
      by auto
    have "0 \<le> (case attr_length d of Some len \<Rightarrow> len / 1000 / s * 60 | None \<Rightarrow> 1)"
    proof (cases "attr_length d")
      case None
      then show ?thesis by simp
    next
      case (Some len)
      with lens src have "0 \<le> len"
        by (force simp: edge_data_def)
      with pos Some show ?thesis by simp
    qed
    then show "\<exists>t. attr_time (edge_data e) = Some t
                 \<and> attr_weight (edge_data e) = Some t \<and> 0 \<le> t"
      by (simp add: e edge_data_def built_attrs_def Let_def)
  qed
  show ?thesis
    using run tagged nonneg by (intro exI [of _ ?g']) simp
qed

theorem add_mode_attributes_sets_mode_time_weight_witness:
  "(5::real) \<noteq> 0
   \<and> map (\<lambda>e. (attr_mode (edge_data e), attr_time (edge_data e), attr_weight (edge_data e)))
        (g_edges (projr (add_mode_attributes g_layer_example ''walk'' 5)))
     = [(Some ''walk'', Some 6, Some 6), (Some ''walk'', Some 1, Some 1)]"
proof -
  have nz: "(5::real) \<noteq> 0" by simp
  from add_mode_attributes_sets_mode_time_weight [OF nz, of g_layer_example "''walk''"]
  obtain g' where run: "add_mode_attributes g_layer_example ''walk'' 5 = Inr g'"
    and es: "g_edges g' = map (\<lambda>(u, v, k, d). (u, v, k, built_attrs ''walk'' 5 d))
                            (g_edges g_layer_example)"
    by blast
  show ?thesis
    using run es
    by (simp add: g_layer_example_def edge_data_def built_attrs_def empty_attrs_def)
qed

section \<open>SegmentAssembler: resolving the data of a path edge\<close>

lemma map_of_key0:
  "map_of kd (0::int) = (case filter (\<lambda>(k, d). k = 0) kd of [] \<Rightarrow> None | (k, d) # _ \<Rightarrow> Some d)"
  by (induction kd) auto

lemma nx_get_edge_data_keydict:
  "nx_get_edge_data g u v = (if nx_keydict g u v = [] then None else Some (nx_keydict g u v))"
  by (simp add: nx_get_edge_data_def nx_keydict_def Let_def)


text \<open>
  C6 (as amended). \<open>_get_edge_data\<close> returns the data of the parallel edge stored under
  key 0 when there is one, otherwise the data of the first inserted parallel edge, and
  the empty attribute record when there is no edge; the weights play no part.
\<close>

theorem get_edge_data_key0_or_first:
  "get_edge_data g u v =
     Inr (case filter (\<lambda>(k, d). k = 0) (nx_keydict g u v) of
            (k, d) # _ \<Rightarrow> d
          | [] \<Rightarrow> (case nx_keydict g u v of (k, d) # _ \<Rightarrow> d | [] \<Rightarrow> empty_attrs))"
  by (auto simp: get_edge_data_def nx_get_edge_data_keydict map_of_key0
           split: list.splits option.splits)

theorem get_edge_data_key0_or_first_witness:
  "get_edge_data g_parallel ''a'' ''b''
     = Inr \<lparr>attr_mode = Some ''car'', attr_time = Some 5, attr_weight = Some 5, attr_length = None\<rparr>"
  using get_edge_data_key0_or_first [of g_parallel "''a''" "''b''"]
  by (simp add: nx_keydict_def g_parallel_def)

text \<open>
  C6 as stated fails: of two parallel edges from \<open>a\<close> to \<open>b\<close>, weight 5 under key 0 and
  weight 1 under key 1, \<open>_get_edge_data\<close> returns the one of weight 5, not the one of
  lowest weight.
\<close>

theorem get_edge_data_not_lowest_weight:
  "get_edge_data g_parallel ''a'' ''b''
     = Inr \<lparr>attr_mode = Some ''car'', attr_time = Some 5, attr_weight = Some 5, attr_length = None\<rparr>
   \<and> lowest_weight_data (nx_keydict g_parallel ''a'' ''b'')
     = \<lparr>attr_mode = Some ''walk'', attr_time = Some 1, attr_weight = Some 1, attr_length = None\<rparr>
   \<and> get_edge_data g_parallel ''a'' ''b''
     \<noteq> Inr (lowest_weight_data (nx_keydict g_parallel ''a'' ''b''))"
  by (simp add: get_edge_data_def nx_get_edge_data_def nx_keydict_def lowest_weight_data_def
                dict_get_def g_parallel_def)

section \<open>SegmentAssembler: the loop\<close>

lemma segment_step_open:
  "segment_step g st uv = Inr st' \<Longrightarrow> segment_open st'"
  by (auto simp: segment_step_def segment_open_def append_if_absent_def Let_def
           split: prod.splits sum.splits option.splits if_splits)

lemma segment_step_cost:
  assumes "segment_step g st uv = Inr st'" "current_mode st = None \<or> current_coords st \<noteq> []"
  shows "accrued_cost st' = accrued_cost st + calc_cost (resolved_mode g uv) 0"
  using assms
  by (auto simp: segment_step_def accrued_cost_def resolved_mode_def close_segment_def
                 py_round_int_def calc_cost_def Let_def
           split: prod.splits sum.splits option.splits if_splits)

lemma segment_loop_cost:
  "segment_loop g st uvs = Inr st' \<Longrightarrow> current_mode st = None \<or> current_coords st \<noteq> [] \<Longrightarrow>
   accrued_cost st' = accrued_cost st + 20 * int (length (filter (\<lambda>uv. resolved_mode g uv = ''car'') uvs))"
proof (induction uvs arbitrary: st)
  case Nil
  then show ?case by simp
next
  case (Cons uv uvs)
  from Cons.prems(1) obtain st1 where step: "segment_step g st uv = Inr st1"
    and rest: "segment_loop g st1 uvs = Inr st'"
    by (auto split: sum.splits)
  have "segment_open st1" using step by (rule segment_step_open)
  then have inv: "current_mode st1 = None \<or> current_coords st1 \<noteq> []"
    by (simp add: segment_open_def)
  from Cons.IH [OF rest inv] segment_step_cost [OF step Cons.prems(2)]
  show ?case by (simp add: calc_cost_def)
qed

lemma segment_loop_open:
  "segment_loop g st uvs = Inr st' \<Longrightarrow> uvs \<noteq> [] \<or> segment_open st \<Longrightarrow> segment_open st'"
proof (induction uvs arbitrary: st)
  case Nil
  then show ?case by simp
next
  case (Cons uv uvs)
  from Cons.prems(1) obtain st1 where step: "segment_step g st uv = Inr st1"
    and rest: "segment_loop g st1 uvs = Inr st'"
    by (auto split: sum.splits)
  have "segment_open st1" using step by (rule segment_step_open)
  with Cons.IH [OF rest] show ?case by simp
qed

lemma path_edges_nonempty: "\<not> length path < 2 \<Longrightarrow> path_edges path \<noteq> []"
  by (cases path; cases "tl path") (auto simp: path_edges_def)

lemma path_to_segments_cost:
  assumes "path_to_segments g path = Inr segs"
  shows "sum_list (map seg_cost segs) =
           20 * int (length (filter (\<lambda>uv. resolved_mode g uv = ''car'') (path_edges path)))"
proof (cases "length path < 2")
  case True
  then have "path_edges path = []"
    by (cases path; cases "tl path") (auto simp: path_edges_def)
  with True assms show ?thesis by (simp add: path_to_segments_def)
next
  case False
  with assms obtain st c where loop: "segment_loop g init_state (path_edges path) = Inr st"
    and fin: "graph_coord g (last path) = Inr c"
    by (auto simp: path_to_segments_def split: sum.splits)
  have op: "segment_open st"
    using segment_loop_open [OF loop] path_edges_nonempty [OF False] by simp
  then obtain cm where cm: "current_mode st = Some cm" and ne: "current_coords st \<noteq> []"
    by (auto simp: segment_open_def)
  have segs: "segs = segments st @ [close_segment cm (st\<lparr>current_coords := append_if_absent c (current_coords st)\<rparr>)]"
    using assms False loop fin cm ne
    by (auto simp: path_to_segments_def Let_def append_if_absent_def split: if_splits)
  have "accrued_cost st = 20 * int (length (filter (\<lambda>uv. resolved_mode g uv = ''car'') (path_edges path)))"
    using segment_loop_cost [OF loop] by (simp add: init_state_def accrued_cost_def)
  then show ?thesis
    by (simp add: segs accrued_cost_def close_segment_def py_round_int_def)
qed

lemma example_run: "path_to_segments g_example example_path = Inr example_segments"
  by (simp add: eval_defs g_example_def example_path_def example_segments_def)

text \<open>
  C5. \<open>calc_cost\<close> is 20 for a car edge and 0 for a walk, bike or transfer edge; the
  segment costs of an assembled path add up to 20 times the number of its edges whose
  mode is car, and so does the total cost of a computed route, for the path the
  shortest-path search returned.
\<close>

theorem total_cost_counts_car_edges:
  "calc_cost ''car'' t = 20 \<and> calc_cost ''walk'' t = 0 \<and> calc_cost ''bike'' t = 0
   \<and> calc_cost ''transfer'' t = 0
   \<and> (path_to_segments g path = Inr segs \<longrightarrow>
        sum_list (map seg_cost segs) =
          20 * int (length (filter (\<lambda>uv. resolved_mode g uv = ''car'') (path_edges path))))
   \<and> (get_multimodal_route sp geo g slat slon elat elon = Inr r \<longrightarrow>
        (\<exists>s t path. nearest_node geo g slat slon = Some s \<and> nearest_node geo g elat elon = Some t
           \<and> sp g s t = Inr path
           \<and> total_cost r =
               20 * int (length (filter (\<lambda>uv. resolved_mode g uv = ''car'') (path_edges path)))))"
proof -
  have route: "\<exists>s t path. nearest_node geo g slat slon = Some s \<and> nearest_node geo g elat elon = Some t
           \<and> sp g s t = Inr path
           \<and> total_cost r =
               20 * int (length (filter (\<lambda>uv. resolved_mode g uv = ''car'') (path_edges path)))"
    if run: "get_multimodal_route sp geo g slat slon elat elon = Inr r"
  proof -
    from run obtain s t where s: "nearest_node geo g slat slon = Some s"
      and t: "nearest_node geo g elat elon = Some t"
      by (auto simp: get_multimodal_route_def split: option.splits)
    from run s t obtain path where p: "sp g s t = Inr path"
      by (auto simp: get_multimodal_route_def split: sum.splits error.splits)
    from run s t p obtain segs where segs: "path_to_segments g path = Inr segs"
      and r: "r = \<lparr>total_time = py_round (sum_list (map seg_time segs)) 1,
                   total_cost = py_round_int (sum_list (map seg_cost segs)) 0,
                   route_segments = segs\<rparr>"
      by (auto simp: get_multimodal_route_def Let_def split: sum.splits)
    have "total_cost r = sum_list (map seg_cost segs)"
      by (simp add: r py_round_int_def)
    with path_to_segments_cost [OF segs] s t p show ?thesis by auto
  qed
  show ?thesis
    using route path_to_segments_cost [of g path segs] by (simp add: calc_cost_def)
qed

theorem total_cost_counts_car_edges_witness:
  "path_to_segments g_example example_path = Inr example_segments
   \<and> sum_list (map seg_cost example_segments) = 20
   \<and> length (filter (\<lambda>uv. resolved_mode g_example uv = ''car'') (path_edges example_path)) = 1"
proof -
  have cars: "length (filter (\<lambda>uv. resolved_mode g_example uv = ''car'') (path_edges example_path)) = 1"
    by (simp add: resolved_mode_def eval_defs g_example_def example_path_def)
  from total_cost_counts_car_edges [of 0 g_example example_path example_segments]
  have "sum_list (map seg_cost example_segments) =
          20 * int (length (filter (\<lambda>uv. resolved_mode g_example uv = ''car'') (path_edges example_path)))"
    using example_run by blast
  with cars example_run show ?thesis by simp
qed

subsection \<open>Coordinates of a segment\<close>

lemma dedup_first_snoc: "dedup_first (xs @ [c]) = append_if_absent c (dedup_first xs)"
  by (simp add: dedup_first_def append_if_absent_def)

lemma dedup_first_single: "dedup_first [c] = [c]"
  by (simp add: dedup_first_def)

lemma dedup_first_nonempty: "xs \<noteq> [] \<Longrightarrow> dedup_first xs \<noteq> []"
  by (simp add: dedup_first_def)

lemma segment_step_same:
  assumes "current_mode st = Some cm" "graph_coord g (fst uv) = Inr c" "resolved_mode g uv = cm"
    and "segment_step g st uv = Inr st'"
  shows "segments st' = segments st \<and> current_mode st' = Some cm
         \<and> current_coords st' = append_if_absent c (current_coords st)"
  using assms
  by (auto simp: segment_step_def resolved_mode_def Let_def split: prod.splits sum.splits)

lemma segment_step_change:
  assumes "current_mode st = Some cm" "graph_coord g (fst uv) = Inr c" "resolved_mode g uv \<noteq> cm"
    and "current_coords st \<noteq> []"
    and "segment_step g st uv = Inr st'"
  shows "map (\<lambda>s. (seg_mode s, seg_coords s)) (segments st')
           = map (\<lambda>s. (seg_mode s, seg_coords s)) (segments st) @ [(cm, current_coords st)]
         \<and> current_mode st' = Some (resolved_mode g uv)
         \<and> current_coords st' = [c]"
  using assms
  by (auto simp: segment_step_def resolved_mode_def Let_def close_segment_def append_if_absent_def
           split: prod.splits sum.splits)

lemma segment_step_first:
  assumes "current_mode st = None" "graph_coord g (fst uv) = Inr c"
    and "segment_step g st uv = Inr st'"
  shows "segments st' = segments st \<and> current_mode st' = Some (resolved_mode g uv)
         \<and> current_coords st' = [c]"
  using assms
  by (auto simp: segment_step_def resolved_mode_def Let_def append_if_absent_def
           split: prod.splits sum.splits)

lemma segment_loop_runs:
  "segment_loop g st uvs = Inr st' \<Longrightarrow> current_mode st = Some cm \<Longrightarrow>
   current_coords st = dedup_first acc \<Longrightarrow> acc \<noteq> [] \<Longrightarrow>
   map (graph_coord g \<circ> fst) uvs = map Inr cs \<Longrightarrow>
   finish st' final =
     map (\<lambda>s. (seg_mode s, seg_coords s)) (segments st)
     @ map (\<lambda>(m, xs). (m, dedup_first xs))
         (split_runs final cm acc (zip (map (resolved_mode g) uvs) cs))"
proof (induction uvs arbitrary: st cm acc cs)
  case Nil
  then show ?case
    by (simp add: finish_def dedup_first_snoc)
next
  case (Cons uv uvs)
  from Cons.prems(1) obtain st1 where step: "segment_step g st uv = Inr st1"
    and rest: "segment_loop g st1 uvs = Inr st'"
    by (auto split: sum.splits)
  from Cons.prems(5) have "cs \<noteq> []" by auto
  then obtain c cs' where cs: "cs = c # cs'"
    by (cases cs) simp_all
  from Cons.prems(5) have c: "graph_coord g (fst uv) = Inr c"
    and cs': "map (graph_coord g \<circ> fst) uvs = map Inr cs'"
    by (simp_all add: cs comp_def)
  show ?case
  proof (cases "resolved_mode g uv = cm")
    case True
    from segment_step_same [OF Cons.prems(2) c True step]
    have s1: "segments st1 = segments st" "current_mode st1 = Some cm"
      "current_coords st1 = dedup_first (acc @ [c])"
      by (simp_all add: Cons.prems(3) dedup_first_snoc)
    from Cons.IH [OF rest s1(2) s1(3) _ cs'] show ?thesis
      by (simp add: cs True s1(1))
  next
    case False
    have ne: "current_coords st \<noteq> []"
      using Cons.prems(3,4) by (simp add: dedup_first_nonempty)
    from segment_step_change [OF Cons.prems(2) c False ne step]
    have s1: "map (\<lambda>s. (seg_mode s, seg_coords s)) (segments st1)
                = map (\<lambda>s. (seg_mode s, seg_coords s)) (segments st) @ [(cm, dedup_first acc)]"
      "current_mode st1 = Some (resolved_mode g uv)"
      "current_coords st1 = dedup_first [c]"
      by (simp_all add: Cons.prems(3) dedup_first_single)
    from Cons.IH [OF rest s1(2) s1(3) _ cs'] show ?thesis
      using False by (simp add: cs s1(1))
  qed
qed

lemma map_fst_zip_tl: "map fst (zip xs (tl xs)) = butlast xs"
proof (induction xs)
  case Nil
  show ?case by simp
next
  case (Cons a xs)
  then show ?case by (cases xs) simp_all
qed

lemma path_coords_split:
  assumes "map (graph_coord g) path = map Inr cs" "\<not> length path < 2"
  shows "map (graph_coord g \<circ> fst) (path_edges path) = map Inr (butlast cs)
         \<and> graph_coord g (last path) = Inr (last cs) \<and> length cs = length path"
proof -
  have len: "length cs = length path"
    using assms(1) by (metis length_map)
  have ne: "path \<noteq> []" "cs \<noteq> []" using assms(2) len by auto
  have "map fst (path_edges path) = butlast path"
    by (simp add: path_edges_def map_fst_zip_tl)
  then have "map (graph_coord g \<circ> fst) (path_edges path) = butlast (map (graph_coord g) path)"
    by (simp add: map_butlast flip: map_map)
  also have "\<dots> = map Inr (butlast cs)"
    by (simp add: assms(1) map_butlast)
  finally have a: "map (graph_coord g \<circ> fst) (path_edges path) = map Inr (butlast cs)" .
  have "graph_coord g (last path) = last (map (graph_coord g) path)"
    using ne(1) by (simp add: last_map)
  also have "\<dots> = Inr (last cs)"
    using ne(2) by (simp add: assms(1) last_map)
  finally show ?thesis using a len by simp
qed

text \<open>
  C7 (as amended). The segments of a path are its runs of equal mode; the coordinate
  list of a segment holds the coordinates of the source nodes of its edges (and, for
  the last segment, of the destination), each coordinate once, at its first
  occurrence: a coordinate is skipped whenever it already occurs anywhere in the open
  segment, not only when it equals the last recorded one.
\<close>

theorem segment_coords_first_occurrences:
  assumes "path_to_segments g path = Inr segs" and "2 \<le> length path"
    and "map (graph_coord g) path = map Inr cs"
  shows "map (\<lambda>s. (seg_mode s, seg_coords s)) segs =
           map (\<lambda>(m, xs). (m, dedup_first xs))
             (path_runs (map (resolved_mode g) (path_edges path)) cs)"
proof -
  have long: "\<not> length path < 2" using assms(2) by simp
  note split = path_coords_split [OF assms(3) long]
  from assms(1) long obtain st where loop: "segment_loop g init_state (path_edges path) = Inr st"
    by (auto simp: path_to_segments_def split: sum.splits)
  have fin: "graph_coord g (last path) = Inr (last cs)" using split by simp
  obtain uv uvs where pe: "path_edges path = uv # uvs"
    using path_edges_nonempty [OF long] by (cases "path_edges path") auto
  have "length (butlast cs) = length (path_edges path)"
    using split by (metis length_map)
  then obtain c cs' where bl: "butlast cs = c # cs'"
    using pe by (cases "butlast cs") auto
  have c: "graph_coord g (fst uv) = Inr c"
    and cs': "map (graph_coord g \<circ> fst) uvs = map Inr cs'"
    using split pe bl by (simp_all add: comp_def)
  from loop pe obtain st1 where step: "segment_step g init_state uv = Inr st1"
    and rest: "segment_loop g st1 uvs = Inr st"
    by (auto split: sum.splits)
  have init: "current_mode init_state = None" "segments init_state = []"
    by (simp_all add: init_state_def)
  from segment_step_first [OF init(1) c step]
  have s1: "segments st1 = []" "current_mode st1 = Some (resolved_mode g uv)"
    "current_coords st1 = dedup_first [c]"
    by (simp_all add: init(2) dedup_first_single)
  have fin_runs: "finish st (last cs) =
      map (\<lambda>(m, xs). (m, dedup_first xs))
        (split_runs (last cs) (resolved_mode g uv) [c] (zip (map (resolved_mode g) uvs) cs'))"
    using segment_loop_runs [OF rest s1(2) s1(3) _ cs', of "last cs"] by (simp add: s1(1))
  have op: "segment_open st"
    using segment_loop_open [OF loop] pe by simp
  then obtain cm where cm: "current_mode st = Some cm" and ne: "current_coords st \<noteq> []"
    by (auto simp: segment_open_def)
  have segs: "map (\<lambda>s. (seg_mode s, seg_coords s)) segs = finish st (last cs)"
    using assms(1) long loop fin cm ne
    by (auto simp: path_to_segments_def Let_def finish_def close_segment_def append_if_absent_def
             split: if_splits)
  have "length cs = length (map (resolved_mode g) (path_edges path)) + 1"
    using split long by (simp add: path_edges_def)
  have zip: "zip (map (resolved_mode g) (path_edges path)) cs
               = zip (map (resolved_mode g) (path_edges path)) (butlast cs)"
  proof -
    have "cs \<noteq> []" using split long by auto
    then have app: "cs = butlast cs @ [last cs]" by simp
    have len: "length (map (resolved_mode g) (path_edges path)) = length (butlast cs)"
      using \<open>length (butlast cs) = length (path_edges path)\<close> by simp
    from zip_append [OF len, of "[]" "[last cs]"] show ?thesis
      using app by simp
  qed
  have "path_runs (map (resolved_mode g) (path_edges path)) cs =
          (case zip (map (resolved_mode g) (path_edges path)) (butlast cs) of
             [] \<Rightarrow> []
           | (m, c) # rest \<Rightarrow> split_runs (last cs) m [c] rest)"
    by (simp only: path_runs_def zip)
  also have "\<dots> = split_runs (last cs) (resolved_mode g uv) [c] (zip (map (resolved_mode g) uvs) cs')"
    by (simp add: pe bl)
  finally show ?thesis
    by (simp add: segs fin_runs)
qed

theorem segment_coords_first_occurrences_witness:
  "path_to_segments g_revisit [''a'', ''b'', ''c'', ''d'']
     = Inr [\<lparr>seg_mode = ''walk'', seg_coords = [(0, 0), (0, 1), (1, 1)], seg_time = 3, seg_cost = 0\<rparr>]
   \<and> 2 \<le> length [''a'', ''b'', ''c'', ''d'']
   \<and> dedup_first [(0, 0), (0, 1), (0, 0), (1, 1 :: real)] = [(0 :: real, 0), (0, 1), (1, 1)]
   \<and> path_runs (map (resolved_mode g_revisit) (path_edges [''a'', ''b'', ''c'', ''d'']))
        [(0, 0), (0, 1), (0, 0), (1, 1 :: real)]
      = [(''walk'', [(0 :: real, 0), (0, 1), (0, 0), (1, 1)])]"
proof -
  have run: "path_to_segments g_revisit [''a'', ''b'', ''c'', ''d'']
     = Inr [\<lparr>seg_mode = ''walk'', seg_coords = [(0, 0), (0, 1), (1, 1)], seg_time = 3, seg_cost = 0\<rparr>]"
    by (simp add: eval_defs empty_attrs_def g_revisit_def)
  have len: "2 \<le> length [''a'', ''b'', ''c'', ''d'']" by simp
  have cs: "map (graph_coord g_revisit) [''a'', ''b'', ''c'', ''d'']
              = map Inr [(0, 0), (0, 1), (0, 0), (1, 1)]"
    by (simp add: eval_defs g_revisit_def)
  have runs: "path_runs (map (resolved_mode g_revisit) (path_edges [''a'', ''b'', ''c'', ''d'']))
        [(0, 0), (0, 1), (0, 0), (1, 1 :: real)]
      = [(''walk'', [(0 :: real, 0), (0, 1), (0, 0), (1, 1)])]"
    by (simp add: path_runs_def resolved_mode_def eval_defs empty_attrs_def g_revisit_def)
  from segment_coords_first_occurrences [OF run len cs]
  have "dedup_first [(0, 0), (0, 1), (0, 0), (1, 1 :: real)] = [(0 :: real, 0), (0, 1), (1, 1)]"
    by (simp add: runs)
  with run runs show ?thesis by simp
qed

text \<open>
  C7 as stated fails: on the path \<open>a, b, c, d\<close> with coordinates \<open>p, q, p, r\<close> and one
  mode, no two consecutive coordinates are equal (removing consecutive duplicates
  changes nothing), yet the segment's coordinates are \<open>p, q, r\<close>: the coordinate of \<open>c\<close>
  is dropped although the last recorded coordinate is \<open>q\<close>.
\<close>

theorem segment_coords_drop_revisited:
  "path_to_segments g_revisit [''a'', ''b'', ''c'', ''d'']
     = Inr [\<lparr>seg_mode = ''walk'', seg_coords = [(0, 0), (0, 1), (1, 1)], seg_time = 3, seg_cost = 0\<rparr>]
   \<and> map (graph_coord g_revisit) [''a'', ''b'', ''c'', ''d'']
     = map Inr [(0, 0), (0, 1), (0, 0), (1, 1)]
   \<and> remdups_adj [(0, 0), (0, 1), (0, 0), (1, 1 :: real)] = [(0 :: real, 0), (0, 1), (0, 0), (1, 1)]
   \<and> [(0, 0), (0, 1), (1, 1)] \<noteq> [(0 :: real, 0 :: real), (0, 1), (0, 0), (1, 1)]"
  by (simp add: eval_defs empty_attrs_def g_revisit_def)

subsection \<open>Missing edges and missing attributes\<close>






section \<open>RoutePlanner\<close>

lemma nearest_node_loop_mem:
  "nearest_node_loop geo q ns md nr = Some n \<Longrightarrow> n \<in> fst ` set ns \<or> nr = Some n"
proof (induction ns arbitrary: md nr)
  case Nil
  then show ?case by simp
next
  case (Cons a ns)
  obtain m d where a: "a = (m, d)" by (cases a)
  from Cons.prems show ?case
    by (auto simp: a Let_def split: option.splits if_splits dest!: Cons.IH)
qed

lemma nearest_node_mem:
  "nearest_node geo g lat lon = Some n \<Longrightarrow> n \<in> fst ` set (g_nodes g)"
  using nearest_node_loop_mem [of geo "(lat, lon)" "g_nodes g" None None n]
  by (simp add: nearest_node_def)

text \<open>
  C9. When the start and the end coordinates resolve to the same nearest node and the
  shortest-path search returns a path of length 1, the route has no segments and its
  total time and total cost are 0.
\<close>

theorem route_same_node_empty:
  assumes "nearest_node geo g start_lat start_lon = Some n"
    and "nearest_node geo g end_lat end_lon = Some n"
    and "sp g n n = Inr path" and "length path = 1"
  shows "get_multimodal_route sp geo g start_lat start_lon end_lat end_lon
           = Inr \<lparr>total_time = 0, total_cost = 0, route_segments = []\<rparr>"
  using assms
  by (simp add: get_multimodal_route_def path_to_segments_def py_round_def py_round_int_def
                round_half_even_def)

theorem route_same_node_empty_witness:
  "nearest_node grid_distance g_example 0 0 = Some ''A_walk''
   \<and> nearest_node grid_distance g_example 0 (1 / 10) = Some ''A_walk''
   \<and> example_shortest_path g_example ''A_walk'' ''A_walk'' = Inr [''A_walk'']
   \<and> get_multimodal_route example_shortest_path grid_distance g_example 0 0 0 (1 / 10)
       = Inr \<lparr>total_time = 0, total_cost = 0, route_segments = []\<rparr>"
proof -
  have near: "nearest_node grid_distance g_example 0 0 = Some ''A_walk''"
    by (simp add: nearest_node_def grid_distance_def g_example_def)
  have near2: "nearest_node grid_distance g_example 0 (1 / 10) = Some ''A_walk''"
    by (simp add: nearest_node_def grid_distance_def g_example_def)
  have sp: "example_shortest_path g_example ''A_walk'' ''A_walk'' = Inr [''A_walk'']"
    by (simp add: example_shortest_path_def)
  have len: "length [''A_walk''] = 1" by simp
  from route_same_node_empty [where sp = example_shortest_path, OF near near2 sp len] near near2 sp
  show ?thesis by simp
qed

text \<open>
  C8. When the resolved start and end nodes are not connected by a directed path, and
  the shortest-path search raises \<open>NetworkXNoPath\<close> in that case, route computation
  fails with the ValueError "No path found between the specified points".
\<close>

theorem route_no_path_value_error:
  assumes "nearest_node geo g start_lat start_lon = Some s"
    and "nearest_node geo g end_lat end_lon = Some t"
    and "\<not> has_path g s t"
    and "raises_no_path sp g"
  shows "get_multimodal_route sp geo g start_lat start_lon end_lat end_lon
           = Inl (ValueError ''No path found between the specified points'')"
proof -
  have "s \<in> fst ` set (g_nodes g)" "t \<in> fst ` set (g_nodes g)"
    using assms(1,2) by (auto dest: nearest_node_mem)
  with assms(3,4) have "sp g s t = Inl NetworkXNoPath"
    by (simp add: raises_no_path_def)
  with assms(1,2) show ?thesis
    by (simp add: get_multimodal_route_def)
qed

lemma edge_rel_example:
  "edge_rel g_example = {(''A_walk'', ''B_walk''), (''B_walk'', ''B_car''), (''B_car'', ''C_car'')}"
  by (auto simp: edge_rel_def g_example_def)

lemma example_no_path: "\<not> has_path g_example ''C_car'' ''A_walk''"
proof
  assume "has_path g_example ''C_car'' ''A_walk''"
  then have "(''C_car'', ''A_walk'') \<in> (edge_rel g_example)\<^sup>*"
    by (simp add: has_path_def)
  then show False
    by (cases rule: converse_rtranclE) (simp_all add: edge_rel_example)
qed

lemma example_raises_no_path: "raises_no_path example_shortest_path g_example"
proof -
  have "(''A_walk'', ''B_walk'') \<in> edge_rel g_example" "(''B_walk'', ''B_car'') \<in> edge_rel g_example"
    "(''B_car'', ''C_car'') \<in> edge_rel g_example"
    by (simp_all add: edge_rel_example)
  then have "has_path g_example ''A_walk'' ''C_car''"
    unfolding has_path_def by (meson rtrancl.rtrancl_into_rtrancl rtrancl.rtrancl_refl)
  then show ?thesis
    by (auto simp: raises_no_path_def example_shortest_path_def has_path_def)
qed

theorem route_no_path_value_error_witness:
  "nearest_node grid_distance g_example 0 2 = Some ''C_car''
   \<and> nearest_node grid_distance g_example 0 0 = Some ''A_walk''
   \<and> \<not> has_path g_example ''C_car'' ''A_walk''
   \<and> raises_no_path example_shortest_path g_example
   \<and> get_multimodal_route example_shortest_path grid_distance g_example 0 2 0 0
       = Inl (ValueError ''No path found between the specified points'')"
proof -
  have s: "nearest_node grid_distance g_example 0 2 = Some ''C_car''"
    by (simp add: nearest_node_def grid_distance_def g_example_def)
  have t: "nearest_node grid_distance g_example 0 0 = Some ''A_walk''"
    by (simp add: nearest_node_def grid_distance_def g_example_def)
  from route_no_path_value_error [where sp = example_shortest_path, OF s t example_no_path example_raises_no_path]
  show ?thesis using s t example_no_path example_raises_no_path by simp
qed

section \<open>InterlayerLinker: the transfer edges added\<close>

lemma transfer_edges_add_edge:
  "transfer_edges (nx_add_edge g u v d) a b =
     transfer_edges g a b @ (if u = a \<and> v = b \<and> attr_mode d = Some ''transfer'' then [d] else [])"
  by (simp add: transfer_edges_def nx_add_edge_def)

lemma transfer_edges_link_nodes:
  "transfer_edges (link_nodes geo g np1 np2) a b = transfer_edges g a b @ link_transfers geo a b np1 np2"
  by (cases np1; cases np2)
     (simp add: link_nodes_def link_transfers_def transfer_edges_add_edge Let_def
                colocated_attrs_def proximate_attrs_def)

lemma transfer_edges_inner:
  "transfer_edges (foldl (\<lambda>g' np2. link_nodes geo g' np1 np2) g nps) a b =
     transfer_edges g a b @ concat (map (link_transfers geo a b np1) nps)"
  by (induction nps arbitrary: g) (simp_all add: transfer_edges_link_nodes)

lemma transfer_edges_outer:
  "transfer_edges (foldl (\<lambda>g np1. foldl (\<lambda>g' np2. link_nodes geo g' np1 np2) g np) g0 nps) a b =
     transfer_edges g0 a b
     @ concat (map (\<lambda>np1. concat (map (link_transfers geo a b np1) np)) nps)"
  by (induction nps arbitrary: g0) (simp_all add: transfer_edges_inner)

lemma transfer_edges_add_interlayer:
  "transfer_edges (add_interlayer_edges geo merged w b c) x y =
     transfer_edges merged x y
     @ concat (map (\<lambda>np1. concat (map (link_transfers geo x y np1) (node_positions w b c)))
                (node_positions w b c))"
  by (simp add: add_interlayer_edges_def Let_def transfer_edges_outer)

lemma concat_map_single:
  assumes "distinct (map fst xs)" "(k, v) \<in> set xs"
    and "\<And>k' v'. (k', v') \<in> set xs \<Longrightarrow> k' \<noteq> k \<Longrightarrow> f (k', v') = []"
  shows "concat (map f xs) = f (k, v)"
  using assms
proof (induction xs)
  case Nil
  then show ?case by simp
next
  case (Cons x xs)
  obtain k0 v0 where x: "x = (k0, v0)" by (cases x)
  show ?case
  proof (cases "k0 = k")
    case True
    have "v0 = v"
      using Cons.prems(1,2) x True by (auto simp: image_iff)
    moreover have "concat (map f xs) = []"
    proof -
      have "\<forall>y \<in> set xs. f y = []"
      proof
        fix y assume y: "y \<in> set xs"
        obtain k' v' where y': "y = (k', v')" by (cases y)
        have "k' \<noteq> k" using Cons.prems(1) x True y y' by (auto simp: image_iff)
        with Cons.prems(3) [of k' v'] y y' show "f y = []" by simp
      qed
      then show ?thesis by (induction xs) simp_all
    qed
    ultimately show ?thesis using x True by simp
  next
    case False
    have "f x = []" using Cons.prems(3) [of k0 v0] x False by simp
    moreover have "(k, v) \<in> set xs" using Cons.prems(2) x False by auto
    ultimately show ?thesis
      using Cons.IH Cons.prems(1,3) by simp
  qed
qed

lemma distinct_record_position:
  "distinct (map fst np) \<Longrightarrow> distinct (map fst (record_position np nd))"
  by (auto simp: record_position_def distinct_update split: prod.splits option.splits)

lemma distinct_fold_record_position:
  "distinct (map fst np) \<Longrightarrow> distinct (map fst (foldl record_position np nds))"
  by (induction nds arbitrary: np) (simp_all add: distinct_record_position)

lemma distinct_node_positions: "distinct (map fst (node_positions w b c))"
  by (simp add: node_positions_def distinct_fold_record_position)

lemma np1: "node_positions g_walk_1 g_bike_1 g_empty = [(''1_walk'', (0, 0)), (''1_bike'', (0, 0))]"
  by (simp add: node_positions_def record_position_def g_walk_1_def g_bike_1_def g_empty_def)

text \<open>
  C2 (as amended). For two distinct nodes of the position table that share their
  original id, linking adds exactly one transfer edge in each direction, each with
  weight = time = 0.5 and length 0: the link is always bidirectional.
\<close>

theorem colocated_nodes_linked_both_ways:
  assumes "(a, pa) \<in> set (node_positions walk_graph bike_graph car_graph)"
    and "(b, pb) \<in> set (node_positions walk_graph bike_graph car_graph)"
    and "a \<noteq> b" and "original_id a = original_id b"
    and "transfer_edges merged_graph a b = []" and "transfer_edges merged_graph b a = []"
  shows "transfer_edges (add_interlayer_edges geo merged_graph walk_graph bike_graph car_graph) a b
           = [colocated_attrs]
       \<and> transfer_edges (add_interlayer_edges geo merged_graph walk_graph bike_graph car_graph) b a
           = [colocated_attrs]"
proof -
  let ?np = "node_positions walk_graph bike_graph car_graph"
  have dist: "distinct (map fst ?np)" by (rule distinct_node_positions)
  have one: "concat (map (\<lambda>np1. concat (map (link_transfers geo x y np1) ?np)) ?np) = [colocated_attrs]"
    if x: "(x, px) \<in> set ?np" and y: "(y, py) \<in> set ?np" and ne: "x \<noteq> y"
      and orig: "original_id x = original_id y" for x y px py
  proof -
    have inner_x: "concat (map (link_transfers geo x y (x, px)) ?np) = link_transfers geo x y (x, px) (y, py)"
      using dist y by (rule concat_map_single) (auto simp: link_transfers_def)
    have other: "concat (map (link_transfers geo x y (k', v')) ?np) = []" if "k' \<noteq> x" for k' v'
    proof -
      have "\<forall>p \<in> set ?np. link_transfers geo x y (k', v') p = []"
        using that orig by (auto simp: link_transfers_def)
      then show ?thesis by (induction ?np) simp_all
    qed
    have "concat (map (\<lambda>np1. concat (map (link_transfers geo x y np1) ?np)) ?np)
            = concat (map (link_transfers geo x y (x, px)) ?np)"
      using dist x by (rule concat_map_single) (simp add: other)
    also have "\<dots> = [colocated_attrs]"
      using ne orig by (simp add: inner_x link_transfers_def)
    finally show ?thesis .
  qed
  show ?thesis
    using one [OF assms(1,2,3,4)] one [OF assms(2,1) assms(3) [symmetric] assms(4) [symmetric]]
    by (simp add: transfer_edges_add_interlayer assms(5,6))
qed

theorem colocated_nodes_linked_both_ways_witness:
  "(''1_walk'', (0, 0)) \<in> set (node_positions g_walk_1 g_bike_1 g_empty)
   \<and> (''1_bike'', (0, 0)) \<in> set (node_positions g_walk_1 g_bike_1 g_empty)
   \<and> ''1_walk'' \<noteq> ''1_bike'' \<and> original_id ''1_walk'' = original_id ''1_bike''
   \<and> transfer_edges g_merged_1 ''1_walk'' ''1_bike'' = []
   \<and> transfer_edges g_merged_1 ''1_bike'' ''1_walk'' = []
   \<and> transfer_edges (add_interlayer_edges grid_distance g_merged_1 g_walk_1 g_bike_1 g_empty)
        ''1_walk'' ''1_bike'' = [colocated_attrs]
   \<and> transfer_edges (add_interlayer_edges grid_distance g_merged_1 g_walk_1 g_bike_1 g_empty)
        ''1_bike'' ''1_walk'' = [colocated_attrs]"
proof -
  have a: "(''1_walk'', (0, 0)) \<in> set (node_positions g_walk_1 g_bike_1 g_empty)"
    and b: "(''1_bike'', (0, 0)) \<in> set (node_positions g_walk_1 g_bike_1 g_empty)"
    by (simp_all add: np1)
  have ne: "''1_walk'' \<noteq> ''1_bike''" by simp
  have orig: "original_id ''1_walk'' = original_id ''1_bike''"
    by (simp add: original_id_def)
  have none: "transfer_edges g_merged_1 ''1_walk'' ''1_bike'' = []"
    "transfer_edges g_merged_1 ''1_bike'' ''1_walk'' = []"
    by (simp_all add: transfer_edges_def g_merged_1_def)
  from colocated_nodes_linked_both_ways [OF a b ne orig none, of grid_distance]
  show ?thesis using a b orig none by simp
qed

text \<open>
  C2 as stated fails: between \<open>1_walk\<close> and \<open>1_bike\<close>, which share the original id 1,
  linking leaves two transfer edges, one in each direction, not exactly one.
\<close>

theorem colocated_two_edges:
  "g_edges (add_interlayer_edges grid_distance g_merged_1 g_walk_1 g_bike_1 g_empty)
     = [(''1_walk'', ''1_bike'', 0, colocated_attrs), (''1_bike'', ''1_walk'', 0, colocated_attrs)]
   \<and> length (transfer_edges (add_interlayer_edges grid_distance g_merged_1 g_walk_1 g_bike_1 g_empty)
               ''1_walk'' ''1_bike''
             @ transfer_edges (add_interlayer_edges grid_distance g_merged_1 g_walk_1 g_bike_1 g_empty)
               ''1_bike'' ''1_walk'') = 2"
  by (simp add: link_defs transfer_edges_def colocated_attrs_def
                g_merged_1_def g_walk_1_def g_bike_1_def g_empty_def)

lemma concat_map_none:
  "(\<And>x. x \<in> set xs \<Longrightarrow> f x = []) \<Longrightarrow> concat (map f xs) = []"
  by (induction xs) simp_all

lemma concat_map_two:
  assumes "distinct (map fst xs)" "(k1, v1) \<in> set xs" "(k2, v2) \<in> set xs" "k1 \<noteq> k2"
    and "\<And>k' v'. (k', v') \<in> set xs \<Longrightarrow> k' \<noteq> k1 \<Longrightarrow> k' \<noteq> k2 \<Longrightarrow> f (k', v') = []"
    and "f (k1, v1) = ys" "f (k2, v2) = ys"
  shows "concat (map f xs) = ys @ ys"
  using assms(1,2,3,5)
proof (induction xs)
  case Nil
  then show ?case by simp
next
  case (Cons x xs)
  obtain k0 v0 where x: "x = (k0, v0)" by (cases x)
  have dist: "distinct (map fst xs)" and fresh: "k0 \<notin> fst ` set xs"
    using Cons.prems(1) x by simp_all
  consider "k0 = k1" | "k0 = k2" | "k0 \<noteq> k1" "k0 \<noteq> k2" by blast
  then show ?case
  proof cases
    case 1
    have v: "v0 = v1" using Cons.prems(2) x 1 fresh by (auto simp: image_iff)
    have in2: "(k2, v2) \<in> set xs" using Cons.prems(3) x 1 assms(4) by auto
    have "concat (map f xs) = f (k2, v2)"
    proof (rule concat_map_single [OF dist in2])
      fix k' v' assume m: "(k', v') \<in> set xs" and ne: "k' \<noteq> k2"
      have "k' \<noteq> k1" using m fresh 1 by (auto simp: image_iff)
      with Cons.prems(4) [of k' v'] m ne show "f (k', v') = []" by simp
    qed
    then show ?thesis by (simp add: x 1 v assms(6,7))
  next
    case 2
    have v: "v0 = v2" using Cons.prems(3) x 2 fresh by (auto simp: image_iff)
    have in1: "(k1, v1) \<in> set xs" using Cons.prems(2) x 2 assms(4) by auto
    have "concat (map f xs) = f (k1, v1)"
    proof (rule concat_map_single [OF dist in1])
      fix k' v' assume m: "(k', v') \<in> set xs" and ne: "k' \<noteq> k1"
      have "k' \<noteq> k2" using m fresh 2 by (auto simp: image_iff)
      with Cons.prems(4) [of k' v'] m ne show "f (k', v') = []" by simp
    qed
    then show ?thesis by (simp add: x 2 v assms(6,7))
  next
    case 3
    have "f x = []" using Cons.prems(4) [of k0 v0] x 3 by simp
    moreover have "(k1, v1) \<in> set xs" "(k2, v2) \<in> set xs"
      using Cons.prems(2,3) x 3 by auto
    ultimately show ?thesis
      using Cons.IH [OF dist] Cons.prems(4) by simp
  qed
qed

text \<open>
  Two distinct nodes of the position table with different original ids, at a distance
  that reads the same in both orders: when the distance is at most 10 meters, linking
  adds two parallel transfer edges from one to the other (one for each order in which
  the scan visits the pair), and none when it exceeds 10 meters. The layers of the
  two nodes play no part.
\<close>

lemma proximate_nodes_linked_twice:
  assumes "(a, pa) \<in> set (node_positions walk_graph bike_graph car_graph)"
    and "(b, pb) \<in> set (node_positions walk_graph bike_graph car_graph)"
    and "original_id a \<noteq> original_id b"
    and "geo pb pa = geo pa pb"
    and "transfer_edges merged_graph a b = []"
  shows "transfer_edges (add_interlayer_edges geo merged_graph walk_graph bike_graph car_graph) a b
           = (if geo pa pb \<le> 10
              then [proximate_attrs (geo pa pb), proximate_attrs (geo pa pb)]
              else [])"
proof -
  let ?np = "node_positions walk_graph bike_graph car_graph"
  let ?ys = "if geo pa pb \<le> 10 then [proximate_attrs (geo pa pb)] else []"
  have dist: "distinct (map fst ?np)" by (rule distinct_node_positions)
  have ne: "a \<noteq> b" using assms(3) by auto
  have inner_a: "concat (map (link_transfers geo a b (a, pa)) ?np) = link_transfers geo a b (a, pa) (b, pb)"
    using dist assms(2) by (rule concat_map_single) (auto simp: link_transfers_def)
  have inner_b: "concat (map (link_transfers geo a b (b, pb)) ?np) = link_transfers geo a b (b, pb) (a, pa)"
    using dist assms(1) by (rule concat_map_single) (auto simp: link_transfers_def)
  have fa: "concat (map (link_transfers geo a b (a, pa)) ?np) = ?ys"
    using ne assms(3) by (simp add: inner_a link_transfers_def max_transfer_distance_def)
  have fb: "concat (map (link_transfers geo a b (b, pb)) ?np) = ?ys"
    using ne assms(3,4) by (simp add: inner_b link_transfers_def max_transfer_distance_def)
  have other: "concat (map (link_transfers geo a b (k', v')) ?np) = []"
    if "k' \<noteq> a" "k' \<noteq> b" for k' v'
  proof (rule concat_map_none)
    fix x assume "x \<in> set ?np"
    show "link_transfers geo a b (k', v') x = []"
      using that by (cases x) (auto simp: link_transfers_def)
  qed
  have "concat (map (\<lambda>np1. concat (map (link_transfers geo a b np1) ?np)) ?np) = ?ys @ ?ys"
    using dist assms(1,2) ne
  proof (rule concat_map_two)
    show "concat (map (link_transfers geo a b (k', v')) ?np) = []"
      if "(k', v') \<in> set ?np" "k' \<noteq> a" "k' \<noteq> b" for k' v'
      using that(2,3) by (rule other)
  qed (rule fa, rule fb)
  then show ?thesis
    by (simp add: transfer_edges_add_interlayer assms(5))
qed

text \<open>
  C1, evaluated: for \<open>1_walk\<close> and \<open>2_bike\<close>, 1.11 meters apart, linking adds two
  parallel transfer edges in each direction (keys 0 and 1), not one bidirectional
  pair: the pair is visited in both orders and each visit adds both directions.
\<close>

theorem proximate_edges_duplicated:
  "node_positions g_walk_1 g_bike_2 g_empty
     = [(''1_walk'', (0, 0)), (''2_bike'', (0, 1 / 100000))]
   \<and> grid_distance (0, 0) (0, 1 / 100000) = 111 / 100
   \<and> g_edges (add_interlayer_edges grid_distance g_merged_2 g_walk_1 g_bike_2 g_empty)
     = [(''1_walk'', ''2_bike'', 0, proximate_attrs (111 / 100)),
        (''2_bike'', ''1_walk'', 0, proximate_attrs (111 / 100)),
        (''2_bike'', ''1_walk'', 1, proximate_attrs (111 / 100)),
        (''1_walk'', ''2_bike'', 1, proximate_attrs (111 / 100))]
   \<and> transfer_edges (add_interlayer_edges grid_distance g_merged_2 g_walk_1 g_bike_2 g_empty)
        ''1_walk'' ''2_bike''
     = [proximate_attrs (111 / 100), proximate_attrs (111 / 100)]
   \<and> transfer_edges (add_interlayer_edges grid_distance g_merged_2 g_walk_1 g_bike_2 g_empty)
        ''2_bike'' ''1_walk''
     = [proximate_attrs (111 / 100), proximate_attrs (111 / 100)]"
  by (simp add: link_defs proximate_attrs_def transfer_edges_def
                g_merged_2_def g_walk_1_def g_bike_2_def g_empty_def)

text \<open>
  C3, evaluated: for \<open>1_walk\<close> and \<open>2_walk\<close>, two nodes of the walk layer 1.11 meters
  apart, linking adds transfer edges between them: same-layer pairs are not skipped.
\<close>

theorem same_layer_nodes_linked:
  "map fst (g_nodes g_walk_12) = [''1_walk'', ''2_walk'']
   \<and> g_nodes g_empty = []
   \<and> g_edges (add_interlayer_edges grid_distance g_walk_12 g_walk_12 g_empty g_empty)
     = [(''1_walk'', ''2_walk'', 0, proximate_attrs (111 / 100)),
        (''2_walk'', ''1_walk'', 0, proximate_attrs (111 / 100)),
        (''2_walk'', ''1_walk'', 1, proximate_attrs (111 / 100)),
        (''1_walk'', ''2_walk'', 1, proximate_attrs (111 / 100))]
   \<and> transfer_edges (add_interlayer_edges grid_distance g_walk_12 g_walk_12 g_empty g_empty)
        ''1_walk'' ''2_walk''
     \<noteq> []"
  by (simp add: link_defs proximate_attrs_def transfer_edges_def g_walk_12_def g_empty_def)

end
